theory Spec2Isabelle
  imports
    Complex_Main
    "HOL-Library.AList"
    "HOL-Library.Sublist"
    "HOL-Library.Char_ord"
    "HOL-Library.List_Lexorder"
begin

section \<open>Values, documents and the collection\<close>

text \<open>
  The notes live in one collection of a document store (\<open>notes_collection\<close> in
  \<open>main.py\<close>). A document is a Python \<open>dict\<close> from field names to values; it is
  modelled as an association list, so that \<open>doc["id"] = v\<close> is \<open>AList.update\<close>
  (replace in place, or append) and \<open>del doc["_id"]\<close> is \<open>AList.delete\<close>.
  The values that occur in a note are the store's null, text, and the store's
  identifier type, which is represented by its 24-digit hexadecimal rendering.
  Text is ASCII text: one \<open>char\<close> is one code point.
  The collection is the list of its documents in the store's natural order.
\<close>

datatype val = Null | Str string | ObjectId string

type_synonym doc = "(string \<times> val) list"

type_synonym collection = "doc list"

text \<open>Python's \<open>str(v)\<close> on the values of a document.\<close>

fun py_str :: "val \<Rightarrow> string" where
  "py_str Null = ''None''"
| "py_str (Str s) = s"
| "py_str (ObjectId h) = h"

text \<open>Python's \<open>str(n)\<close> on an integer, as the f-strings of the handlers use it.\<close>

definition digit_char :: "nat \<Rightarrow> char" where
  "digit_char d = ''0123456789'' ! d"

function str_nat :: "nat \<Rightarrow> string" where
  "str_nat n = (if n < 10 then [digit_char n] else str_nat (n div 10) @ [digit_char (n mod 10)])"
  by pat_completeness auto
termination
  by (relation "measure id") auto

definition str_int :: "int \<Rightarrow> string" where
  "str_int i = (if i < 0 then CHR ''-'' # str_nat (nat (- i)) else str_nat (nat i))"

section \<open>Exceptions and the handlers' catch-all\<close>

text \<open>
  The exceptions that arise in a handler body: the \<open>HTTPException\<close> that the
  handlers raise themselves, and two that the store's driver raises, each with
  its message: \<open>OverflowError\<close>, when an integer of a query does not fit the 8
  bytes of the wire format, and \<open>OperationFailure\<close>, when the store rejects a
  query.

  Every handler body runs inside \<open>try: ... except Exception as e: raise
  HTTPException(status_code=500, detail=str(e))\<close>. \<open>HTTPException\<close> is itself a
  subclass of \<open>Exception\<close>, so an \<open>HTTPException\<close> raised inside the \<open>try\<close> is
  caught by that clause as well and replaced by the one with status 500.
  \<open>exc_str\<close> is \<open>str(e)\<close>: on an \<open>HTTPException\<close> the status code, a colon and
  the detail; on the driver's exceptions their message.
\<close>

datatype exc =
    HTTPException int string
  | OverflowError string
  | OperationFailure string

fun exc_str :: "exc \<Rightarrow> string" where
  "exc_str (HTTPException status_code detail) = str_int status_code @ '': '' @ detail"
| "exc_str (OverflowError msg) = msg"
| "exc_str (OperationFailure msg) = msg"

definition try_except :: "exc + 'a \<Rightarrow> exc + 'a" where
  "try_except r = (case r of
      Inl e \<Rightarrow> Inl (HTTPException 500 (exc_str e))
    | Inr v \<Rightarrow> Inr v)"

text \<open>
  A request whose query parameters violate the constraints declared with \<open>Query\<close>
  never reaches the handler: the framework answers it with status 422.
\<close>

definition validation_error :: exc where
  "validation_error = HTTPException 422 ''Unprocessable Entity''"

text \<open>
  The HTTP status of an outcome: 200 for a returned value, the status code of
  an \<open>HTTPException\<close>, and 500 for any other exception (none leaves a handler:
  the catch-all turns each into an \<open>HTTPException\<close>).
\<close>

fun exc_status :: "exc \<Rightarrow> int" where
  "exc_status (HTTPException status_code detail) = status_code"
| "exc_status (OverflowError msg) = 500"
| "exc_status (OperationFailure msg) = 500"

definition response_status :: "exc + 'a \<Rightarrow> int" where
  "response_status r = (case r of Inl e \<Rightarrow> exc_status e | Inr v \<Rightarrow> 200)"

section \<open>Serialisation of documents\<close>

definition serialize_doc :: "doc \<Rightarrow> doc" where
  "serialize_doc doc =
     (if doc \<noteq> [] \<and> map_of doc ''_id'' \<noteq> None
      then AList.delete ''_id'' (AList.update ''id'' (Str (py_str (the (map_of doc ''_id'')))) doc)
      else doc)"

definition serialize_docs :: "doc list \<Rightarrow> doc list" where
  "serialize_docs docs = map serialize_doc docs"

section \<open>The store's queries\<close>

subsection \<open>Regular expressions\<close>

text \<open>
  \<open>{"$regex": q, "$options": "i"}\<close> hands the request's \<open>q\<close> to the store's
  regular-expression engine as a pattern, unescaped, for a caseless unanchored
  search. The engine either rejects a pattern, with a message, or yields the
  matcher of the pattern: the texts in which the pattern is found.

  One fragment of the pattern language is written out here: an ordinary
  character stands for itself, \<open>.\<close> for any character but a newline, and a
  backslash followed by a character that is neither a letter nor a digit for
  that character. \<open>regex_compile\<close> is \<open>None\<close> on every other pattern
  (quantifiers, groups, classes, anchors, alternation, escape classes, and
  the patterns the engine rejects). What the engine does with those is the
  parameter \<open>ext\<close> of \<open>regex\<close>, and of the two search handlers: any engine
  whatever, so that a property proved for every \<open>ext\<close> holds of every query.
\<close>

datatype atom = Lit char | AnyChar

definition regex_meta :: "char list" where
  "regex_meta = [CHR 0x5C, CHR ''^'', CHR ''$'', CHR ''.'', CHR ''|'', CHR ''?'', CHR ''*'',
     CHR ''+'', CHR ''('', CHR '')'', CHR ''['', CHR '']'', CHR ''{'', CHR ''}'']"

definition is_alnum :: "char \<Rightarrow> bool" where
  "is_alnum c \<longleftrightarrow>
     c \<in> set ''abcdefghijklmnopqrstuvwxyzABCDEFGHIJKLMNOPQRSTUVWXYZ0123456789''"

fun regex_compile :: "string \<Rightarrow> atom list option" where
  "regex_compile [] = Some []"
| "regex_compile [c] =
     (if c = CHR ''.'' then Some [AnyChar]
      else if c \<in> set regex_meta then None
      else Some [Lit c])"
| "regex_compile (c # d # cs) =
     (if c = CHR 0x5C then
        (if is_alnum d then None else map_option ((#) (Lit d)) (regex_compile cs))
      else if c = CHR ''.'' then map_option ((#) AnyChar) (regex_compile (d # cs))
      else if c \<in> set regex_meta then None
      else map_option ((#) (Lit c)) (regex_compile (d # cs)))"

definition to_lower :: "char \<Rightarrow> char" where
  "to_lower c =
     (case map_of (zip ''ABCDEFGHIJKLMNOPQRSTUVWXYZ'' ''abcdefghijklmnopqrstuvwxyz'') c of
        None \<Rightarrow> c
      | Some l \<Rightarrow> l)"

fun atom_matches :: "atom \<Rightarrow> char \<Rightarrow> bool" where
  "atom_matches (Lit c) x \<longleftrightarrow> to_lower c = to_lower x"
| "atom_matches AnyChar x \<longleftrightarrow> x \<noteq> CHR 0x0A"

fun match_here :: "atom list \<Rightarrow> string \<Rightarrow> bool" where
  "match_here [] s \<longleftrightarrow> True"
| "match_here (a # as) [] \<longleftrightarrow> False"
| "match_here (a # as) (x # xs) \<longleftrightarrow> atom_matches a x \<and> match_here as xs"

fun regex_search :: "atom list \<Rightarrow> string \<Rightarrow> bool" where
  "regex_search as [] \<longleftrightarrow> match_here as []"
| "regex_search as (x # xs) \<longleftrightarrow> match_here as (x # xs) \<or> regex_search as xs"

type_synonym matcher = "string \<Rightarrow> bool"

type_synonym engine = "string \<Rightarrow> string + matcher"

definition regex :: "engine \<Rightarrow> string \<Rightarrow> string + matcher" where
  "regex ext q = (case regex_compile q of
      Some as \<Rightarrow> Inr (regex_search as)
    | None \<Rightarrow> ext q)"

text \<open>A \<open>$regex\<close> condition on a field holds only of a text value.\<close>

definition field_regex :: "matcher \<Rightarrow> string \<Rightarrow> doc \<Rightarrow> bool" where
  "field_regex m f d = (case map_of d f of Some (Str s) \<Rightarrow> m s | _ \<Rightarrow> False)"

subsection \<open>find, count, skip and limit\<close>

text \<open>\<open>{"folder": name}\<close>: the field is present and equal to the text \<open>name\<close>.\<close>

definition folder_is :: "string \<Rightarrow> doc \<Rightarrow> bool" where
  "folder_is name d \<longleftrightarrow> map_of d ''folder'' = Some (Str name)"

definition find_folder :: "collection \<Rightarrow> string \<Rightarrow> doc list" where
  "find_folder coll name = filter (folder_is name) coll"

definition count_documents_folder :: "collection \<Rightarrow> string \<Rightarrow> int" where
  "count_documents_folder coll name = int (length (filter (folder_is name) coll))"

definition count_documents :: "collection \<Rightarrow> int" where
  "count_documents coll = int (length coll)"

text \<open>
  \<open>cursor.skip(skip).limit(limit)\<close>. The handlers reach it only with
  \<open>skip \<ge> 0\<close> and \<open>1 \<le> limit \<le> 100\<close>, after the validation of \<open>page\<close> and
  \<open>limit\<close>; \<open>page\<close> has no upper bound, so \<open>skip\<close> has none. The driver sends
  \<open>skip\<close> to the store as an integer of at most 8 bytes and raises
  \<open>OverflowError\<close> when it is above \<open>2 ^ 63 - 1\<close>.
  Apart from that, and from the patterns its engine rejects, the store is
  taken to be reachable and to answer every query.
\<close>

definition max_int64 :: int where
  "max_int64 = 9223372036854775807"

definition skip_limit :: "int \<Rightarrow> int \<Rightarrow> doc list \<Rightarrow> exc + doc list" where
  "skip_limit skip limit docs =
     (if max_int64 < skip then Inl (OverflowError ''MongoDB can only handle up to 8-byte ints'')
      else Inr (take (nat limit) (drop (nat skip) docs)))"

text \<open>
  \<open>math.ceil(total_count / limit)\<close> for \<open>limit > 0\<close>. Python divides the two
  integers as floats and rounds up; for the sizes a collection can have
  (below \<open>2 ^ 45\<close> documents) the float quotient is close enough to the exact
  one for the result to be the exact ceiling, which is what is modelled.
\<close>

definition ceil_div :: "int \<Rightarrow> int \<Rightarrow> int" where
  "ceil_div a b = - ((- a) div b)"

section \<open>The handlers\<close>

record notes_page =
  results :: "doc list"
  count :: int
  next_url :: "string option"
  prev_url :: "string option"

record folder_notes_page = notes_page +
  folder :: string

record 'a envelope =
  data :: 'a

definition valid_page_limit :: "int \<Rightarrow> int \<Rightarrow> bool" where
  "valid_page_limit page limit \<longleftrightarrow> 1 \<le> page \<and> 1 \<le> limit \<and> limit \<le> 100"

definition get_notes :: "collection \<Rightarrow> int \<Rightarrow> int \<Rightarrow> exc + notes_page" where
  "get_notes coll page limit =
     (if \<not> valid_page_limit page limit then Inl validation_error
      else try_except
        (let skip = (page - 1) * limit;
             total_count = count_documents coll
         in case skip_limit skip limit coll of
              Inl e \<Rightarrow> Inl e
            | Inr notes \<Rightarrow>
                let total_pages = ceil_div total_count limit;
                    next_url = (if page < total_pages
                       then Some (''/notes/?page='' @ str_int (page + 1) @ ''&limit='' @ str_int limit)
                       else None);
                    prev_url = (if page > 1
                       then Some (''/notes/?page='' @ str_int (page - 1) @ ''&limit='' @ str_int limit)
                       else None)
                in Inr \<lparr>results = serialize_docs notes, count = total_count,
                        next_url = next_url, prev_url = prev_url\<rparr>))"

text \<open>
  \<open>search_notes\<close>: the filter is \<open>{"$or": [title regex, body regex]}\<close>, with
  \<open>"folder": folder\<close> added when \<open>if folder:\<close> holds, that is, when the parameter
  is present and not the empty string. When the engine rejects the pattern,
  \<open>find\<close> raises \<open>OperationFailure\<close>.
\<close>

definition search_notes ::
  "engine \<Rightarrow> collection \<Rightarrow> string \<Rightarrow> string option \<Rightarrow> exc + doc list envelope" where
  "search_notes ext coll q folder' =
     (if length q < 1 then Inl validation_error
      else try_except
        (case regex ext q of
           Inl msg \<Rightarrow> Inl (OperationFailure msg)
         | Inr m \<Rightarrow>
             let search_query = (\<lambda>d.
                   (field_regex m ''title'' d \<or> field_regex m ''body'' d) \<and>
                   (case folder' of
                      None \<Rightarrow> True
                    | Some f \<Rightarrow> if f \<noteq> [] then folder_is f d else True));
                 notes = filter search_query coll
             in Inr \<lparr>data = serialize_docs notes\<rparr>))"

text \<open>
  \<open>get_random_note\<close>: the pipeline \<open>[{"$sample": {"size": 1}}]\<close> yields no document
  on an empty collection and one document of the collection otherwise. The
  store's random choice is the parameter \<open>rnd\<close>.
\<close>

definition sample_one :: "nat \<Rightarrow> collection \<Rightarrow> doc list" where
  "sample_one rnd coll = (if coll = [] then [] else [coll ! (rnd mod length coll)])"

definition get_random_note :: "nat \<Rightarrow> collection \<Rightarrow> exc + doc envelope" where
  "get_random_note rnd coll =
     try_except
       (let notes = sample_one rnd coll
        in case notes of
             [] \<Rightarrow> Inl (HTTPException 404 ''No notes found'')
           | note # _ \<Rightarrow> Inr \<lparr>data = serialize_doc note\<rparr>)"

text \<open>
  \<open>get_folders\<close>: \<open>$group\<close> on \<open>"$folder"\<close> makes one group for each distinct value of
  the field, a document without the field going to the group of the null value,
  and counts the documents of each group; \<open>$sort\<close> orders the groups by
  descending count; \<open>$project\<close> renames the group key to \<open>name\<close>. The store leaves
  the order of groups with equal counts open; the model orders them as the
  stable sort does.
\<close>

record named =
  name :: val

record folder_entry = named +
  note_count :: int

definition folder_key :: "doc \<Rightarrow> val" where
  "folder_key d = (case map_of d ''folder'' of None \<Rightarrow> Null | Some v \<Rightarrow> v)"

definition group_folders :: "collection \<Rightarrow> val list" where
  "group_folders coll = remdups (map folder_key coll)"

definition group_count :: "collection \<Rightarrow> (val \<times> int) list" where
  "group_count coll =
     map (\<lambda>k. (k, int (length (filter (\<lambda>d. folder_key d = k) coll)))) (group_folders coll)"

definition sort_count_desc :: "(val \<times> int) list \<Rightarrow> (val \<times> int) list" where
  "sort_count_desc gs = sort_key (\<lambda>g. - snd g) gs"

definition get_folders :: "collection \<Rightarrow> exc + folder_entry list envelope" where
  "get_folders coll =
     try_except
       (let folders = map (\<lambda>g. \<lparr>name = fst g, note_count = snd g\<rparr>)
                          (sort_count_desc (group_count coll))
        in Inr \<lparr>data = folders\<rparr>)"

text \<open>
  \<open>search_folders\<close>: the groups whose key is a text that the pattern matches,
  sorted by ascending name. The store compares two texts character by
  character, by character code. When the engine rejects the pattern,
  \<open>aggregate\<close> raises \<open>OperationFailure\<close>.
\<close>

definition match_folders :: "matcher \<Rightarrow> val list \<Rightarrow> string list" where
  "match_folders m ks =
     concat (map (\<lambda>k. case k of Str s \<Rightarrow> if m s then [s] else [] | _ \<Rightarrow> []) ks)"

definition search_folders :: "engine \<Rightarrow> collection \<Rightarrow> string \<Rightarrow> exc + named list envelope" where
  "search_folders ext coll q =
     (if length q < 1 then Inl validation_error
      else try_except
        (case regex ext q of
           Inl msg \<Rightarrow> Inl (OperationFailure msg)
         | Inr m \<Rightarrow>
             let folders = map (\<lambda>s. \<lparr>name = Str s\<rparr>) (sort (match_folders m (group_folders coll)))
             in Inr \<lparr>data = folders\<rparr>))"

text \<open>\<open>get_notes_by_folder\<close> and \<open>get_folder_with_notes\<close>.\<close>

definition get_notes_by_folder ::
  "collection \<Rightarrow> string \<Rightarrow> int \<Rightarrow> int \<Rightarrow> exc + folder_notes_page" where
  "get_notes_by_folder coll folder_name page limit =
     (if \<not> valid_page_limit page limit then Inl validation_error
      else try_except
        (let skip = (page - 1) * limit;
             total_count = count_documents_folder coll folder_name
         in if total_count = 0
            then Inl (HTTPException 404 ''Folder not found or no notes in folder'')
            else case skip_limit skip limit (find_folder coll folder_name) of
              Inl e \<Rightarrow> Inl e
            | Inr notes \<Rightarrow>
                let total_pages = ceil_div total_count limit;
                    next_url = (if page < total_pages
                       then Some (''/notes/by-folder/'' @ folder_name @ ''?page='' @ str_int (page + 1)
                                  @ ''&limit='' @ str_int limit)
                       else None);
                    prev_url = (if page > 1
                       then Some (''/notes/by-folder/'' @ folder_name @ ''?page='' @ str_int (page - 1)
                                  @ ''&limit='' @ str_int limit)
                       else None)
                in Inr \<lparr>results = serialize_docs notes, count = total_count,
                        next_url = next_url, prev_url = prev_url, folder = folder_name\<rparr>))"

record folder_with_notes =
  folder_name :: string
  note_count :: int
  "notes" :: "doc list"

definition get_folder_with_notes :: "collection \<Rightarrow> string \<Rightarrow> exc + folder_with_notes envelope" where
  "get_folder_with_notes coll folder_name' =
     try_except
       (let notes = find_folder coll folder_name'
        in if notes = [] then Inl (HTTPException 404 ''Folder not found or no notes in folder'')
           else Inr \<lparr>data = \<lparr>folder_name = folder_name', note_count = int (length notes),
                              notes = serialize_docs notes\<rparr>\<rparr>)"

section \<open>Case-insensitive containment\<close>



section \<open>Alphabetical order\<close>

text \<open>
  The specification's reading of the order of a folder search: ascending
  alphabetical order, the order of a dictionary, in which letter case plays no
  part. \<open>alphabetical s t\<close>: the name \<open>s\<close> may stand before the name \<open>t\<close>.
\<close>

definition alphabetical :: "string \<Rightarrow> string \<Rightarrow> bool" where
  "alphabetical s t \<longleftrightarrow> map to_lower s \<le> map to_lower t"

section \<open>Identifiers in responses\<close>

text \<open>
  What a response is to show of a stored document \<open>d\<close>: the note \<open>n\<close> is the
  serialised \<open>d\<close>, has no \<open>_id\<close> field, and its \<open>id\<close> field is the text
  \<open>str(d["_id"])\<close>.
\<close>

definition exposes_id :: "doc \<Rightarrow> doc \<Rightarrow> bool" where
  "exposes_id d n \<longleftrightarrow>
     n = serialize_doc d \<and> map_of n ''_id'' = None \<and>
     (case map_of d ''_id'' of
        None \<Rightarrow> False
      | Some v \<Rightarrow> map_of n ''id'' = Some (Str (py_str v)))"

section \<open>Properties of the handlers\<close>

subsection \<open>Auxiliary facts\<close>

lemma ceil_div_ceiling: "ceil_div a b = \<lceil>real_of_int a / real_of_int b\<rceil>"
  by (simp add: ceil_div_def ceiling_divide_eq_div)

lemma less_ceil_div_iff:
  assumes "0 < b"
  shows "p < ceil_div a b \<longleftrightarrow> p * b < a"
proof -
  have "p < ceil_div a b \<longleftrightarrow> real_of_int p < real_of_int a / real_of_int b"
    by (simp add: ceil_div_ceiling less_ceiling_iff)
  also have "\<dots> \<longleftrightarrow> real_of_int p * real_of_int b < real_of_int a"
    using assms by (simp add: pos_less_divide_eq)
  also have "\<dots> \<longleftrightarrow> p * b < a"
    by (metis of_int_less_iff of_int_mult)
  finally show ?thesis .
qed

lemma get_notes_valid:
  assumes "valid_page_limit page limit" and "(page - 1) * limit \<le> max_int64"
  shows "get_notes coll page limit = Inr
     \<lparr>results = serialize_docs (take (nat limit) (drop (nat ((page - 1) * limit)) coll)),
      count = count_documents coll,
      next_url = (if page < ceil_div (count_documents coll) limit
         then Some (''/notes/?page='' @ str_int (page + 1) @ ''&limit='' @ str_int limit)
         else None),
      prev_url = (if page > 1
         then Some (''/notes/?page='' @ str_int (page - 1) @ ''&limit='' @ str_int limit)
         else None)\<rparr>"
  using assms by (simp add: get_notes_def skip_limit_def try_except_def Let_def)

lemma get_notes_overflow:
  assumes "valid_page_limit page limit" and "max_int64 < (page - 1) * limit"
  shows "get_notes coll page limit =
     Inl (HTTPException 500 ''MongoDB can only handle up to 8-byte ints'')"
  using assms by (simp add: get_notes_def skip_limit_def try_except_def Let_def)

lemma get_notes_Inr:
  assumes "get_notes coll page limit = Inr r"
  shows "valid_page_limit page limit \<and> (page - 1) * limit \<le> max_int64"
proof (rule ccontr)
  assume "\<not> (valid_page_limit page limit \<and> (page - 1) * limit \<le> max_int64)"
  then consider "\<not> valid_page_limit page limit"
    | "valid_page_limit page limit" and "max_int64 < (page - 1) * limit"
    by fastforce
  then show False
  proof cases
    case 1
    then show False
      using assms by (simp add: get_notes_def)
  next
    case 2
    then show False
      using assms get_notes_overflow [of page limit coll] by simp
  qed
qed

lemma get_notes_by_folder_valid:
  assumes "valid_page_limit page limit" and "count_documents_folder coll f \<noteq> 0"
    and "(page - 1) * limit \<le> max_int64"
  shows "get_notes_by_folder coll f page limit = Inr
     \<lparr>results = serialize_docs
        (take (nat limit) (drop (nat ((page - 1) * limit)) (find_folder coll f))),
      count = count_documents_folder coll f,
      next_url = (if page < ceil_div (count_documents_folder coll f) limit
         then Some (''/notes/by-folder/'' @ f @ ''?page='' @ str_int (page + 1)
                    @ ''&limit='' @ str_int limit)
         else None),
      prev_url = (if page > 1
         then Some (''/notes/by-folder/'' @ f @ ''?page='' @ str_int (page - 1)
                    @ ''&limit='' @ str_int limit)
         else None),
      folder = f\<rparr>"
  using assms by (simp add: get_notes_by_folder_def skip_limit_def try_except_def Let_def)

lemma get_notes_by_folder_empty:
  assumes "valid_page_limit page limit" and "count_documents_folder coll f = 0"
  shows "get_notes_by_folder coll f page limit =
     Inl (HTTPException 500 (exc_str (HTTPException 404 ''Folder not found or no notes in folder'')))"
  using assms by (simp add: get_notes_by_folder_def try_except_def Let_def)

lemma get_notes_by_folder_overflow:
  assumes "valid_page_limit page limit" and "count_documents_folder coll f \<noteq> 0"
    and "max_int64 < (page - 1) * limit"
  shows "get_notes_by_folder coll f page limit =
     Inl (HTTPException 500 ''MongoDB can only handle up to 8-byte ints'')"
  using assms by (simp add: get_notes_by_folder_def skip_limit_def try_except_def Let_def)

lemma get_notes_by_folder_Inr:
  assumes "get_notes_by_folder coll f page limit = Inr r"
  shows "valid_page_limit page limit \<and> count_documents_folder coll f \<noteq> 0 \<and>
         (page - 1) * limit \<le> max_int64"
proof -
  have v: "valid_page_limit page limit"
    using assms by (cases "valid_page_limit page limit") (simp_all add: get_notes_by_folder_def)
  have c: "count_documents_folder coll f \<noteq> 0"
    using assms get_notes_by_folder_empty [OF v, of coll f] by auto
  have "(page - 1) * limit \<le> max_int64"
    using assms get_notes_by_folder_overflow [OF v c] by fastforce
  with v c show ?thesis by simp
qed

lemma page_links:
  assumes "0 < limit"
    and "nx = (if page < ceil_div c limit then Some u else None)"
    and "pv = (if page > 1 then Some w else None)"
  shows "(nx \<noteq> None \<longleftrightarrow> page < \<lceil>real_of_int c / real_of_int limit\<rceil>) \<and>
         (nx \<noteq> None \<longleftrightarrow> page * limit < c) \<and>
         (pv \<noteq> None \<longleftrightarrow> page > 1)"
  using assms less_ceil_div_iff [of limit page c]
  by (simp add: ceil_div_ceiling [symmetric])

lemma skip_beyond:
  assumes "0 < limit" and "ceil_div c limit < page"
  shows "c \<le> (page - 1) * limit"
proof -
  have "\<not> page - 1 < ceil_div c limit"
    using assms(2) by simp
  then have "\<not> (page - 1) * limit < c"
    using less_ceil_div_iff [OF assms(1), of "page - 1" c] by simp
  then show ?thesis by simp
qed

subsection \<open>Pagination links\<close>

text \<open>
  Claim C4. For every page at least 1 and every limit from 1 to 100, in both
  paginated listings (all notes, and the notes of one folder): the next link
  of the response is present exactly when the page is below the number of
  pages, the ceiling of count / limit, which is exactly when page * limit is
  below count; the previous link is present exactly when the page is above 1.
  This holds of every response of the two listings. There is a response
  whenever skip = (page - 1) * limit fits the 8 bytes of the store's wire
  format and, for the listing of a folder, the folder has a note; otherwise
  the handler answers with an error and there are no links to speak of.
\<close>

theorem pagination_links:
  assumes "1 \<le> page" and "1 \<le> limit" and "limit \<le> 100"
  shows "(\<forall>r. get_notes coll page limit = Inr r \<longrightarrow>
            count r = int (length coll) \<and>
            (next_url r \<noteq> None \<longleftrightarrow> page < \<lceil>real_of_int (count r) / real_of_int limit\<rceil>) \<and>
            (next_url r \<noteq> None \<longleftrightarrow> page * limit < count r) \<and>
            (prev_url r \<noteq> None \<longleftrightarrow> page > 1)) \<and>
         (\<forall>r. get_notes_by_folder coll f page limit = Inr r \<longrightarrow>
            count r = int (length (filter (folder_is f) coll)) \<and>
            (next_url r \<noteq> None \<longleftrightarrow> page < \<lceil>real_of_int (count r) / real_of_int limit\<rceil>) \<and>
            (next_url r \<noteq> None \<longleftrightarrow> page * limit < count r) \<and>
            (prev_url r \<noteq> None \<longleftrightarrow> page > 1)) \<and>
         ((page - 1) * limit \<le> max_int64 \<longrightarrow>
            (\<exists>r. get_notes coll page limit = Inr r) \<and>
            (filter (folder_is f) coll \<noteq> [] \<longrightarrow>
               (\<exists>r. get_notes_by_folder coll f page limit = Inr r)))"
proof -
  have v: "valid_page_limit page limit"
    using assms by (simp add: valid_page_limit_def)
  have pos: "0 < limit"
    using assms by simp
  have a: "count r = int (length coll) \<and>
            (next_url r \<noteq> None \<longleftrightarrow> page < \<lceil>real_of_int (count r) / real_of_int limit\<rceil>) \<and>
            (next_url r \<noteq> None \<longleftrightarrow> page * limit < count r) \<and>
            (prev_url r \<noteq> None \<longleftrightarrow> page > 1)"
    if r: "get_notes coll page limit = Inr r" for r
  proof -
    have fits: "(page - 1) * limit \<le> max_int64"
      using get_notes_Inr [OF r] by simp
    have eq: "r = projr (get_notes coll page limit)"
      using r by simp
    have "count r = int (length coll)"
      unfolding eq by (simp add: get_notes_valid [OF v fits] count_documents_def)
    moreover have "(next_url r \<noteq> None \<longleftrightarrow> page < \<lceil>real_of_int (count r) / real_of_int limit\<rceil>) \<and>
            (next_url r \<noteq> None \<longleftrightarrow> page * limit < count r) \<and>
            (prev_url r \<noteq> None \<longleftrightarrow> page > 1)"
      unfolding eq by (rule page_links [OF pos]) (simp_all add: get_notes_valid [OF v fits])
    ultimately show ?thesis by blast
  qed
  have b: "count r = int (length (filter (folder_is f) coll)) \<and>
            (next_url r \<noteq> None \<longleftrightarrow> page < \<lceil>real_of_int (count r) / real_of_int limit\<rceil>) \<and>
            (next_url r \<noteq> None \<longleftrightarrow> page * limit < count r) \<and>
            (prev_url r \<noteq> None \<longleftrightarrow> page > 1)"
    if r: "get_notes_by_folder coll f page limit = Inr r" for r
  proof -
    have some: "count_documents_folder coll f \<noteq> 0" and fits: "(page - 1) * limit \<le> max_int64"
      using get_notes_by_folder_Inr [OF r] by simp_all
    have eq: "r = projr (get_notes_by_folder coll f page limit)"
      using r by simp
    have "count r = int (length (filter (folder_is f) coll))"
      unfolding eq
      by (simp add: get_notes_by_folder_valid [OF v some fits] count_documents_folder_def)
    moreover have "(next_url r \<noteq> None \<longleftrightarrow> page < \<lceil>real_of_int (count r) / real_of_int limit\<rceil>) \<and>
            (next_url r \<noteq> None \<longleftrightarrow> page * limit < count r) \<and>
            (prev_url r \<noteq> None \<longleftrightarrow> page > 1)"
      unfolding eq
      by (rule page_links [OF pos]) (simp_all add: get_notes_by_folder_valid [OF v some fits])
    ultimately show ?thesis by blast
  qed
  have c: "(\<exists>r. get_notes coll page limit = Inr r) \<and>
           (filter (folder_is f) coll \<noteq> [] \<longrightarrow>
              (\<exists>r. get_notes_by_folder coll f page limit = Inr r))"
    if fits: "(page - 1) * limit \<le> max_int64"
  proof (intro conjI impI)
    show "\<exists>r. get_notes coll page limit = Inr r"
      by (simp add: get_notes_valid [OF v fits])
  next
    assume "filter (folder_is f) coll \<noteq> []"
    then have "count_documents_folder coll f \<noteq> 0"
      by (simp add: count_documents_folder_def)
    then show "\<exists>r. get_notes_by_folder coll f page limit = Inr r"
      by (simp add: get_notes_by_folder_valid [OF v _ fits])
  qed
  from a b c show ?thesis by blast
qed

theorem pagination_links_witness:
  "(1::int) \<le> 1 \<and> (1::int) \<le> 1 \<and> (1::int) \<le> 100 \<and>
   ((1::int) - 1) * 1 \<le> max_int64 \<and>
   get_notes_by_folder
     [[(''_id'', ObjectId ''64b7f0000000000000000001''), (''folder'', Str ''A'')],
      [(''_id'', ObjectId ''64b7f0000000000000000002''), (''folder'', Str ''A'')]] ''A'' 1 1
   = Inr \<lparr>results = [[(''folder'', Str ''A''), (''id'', Str ''64b7f0000000000000000001'')]],
          count = 2, next_url = Some ''/notes/by-folder/A?page=2&limit=1'', prev_url = None,
          folder = ''A''\<rparr> \<and>
   (1::int) * 1 < 2"
  using pagination_links [of 1 1 "[[(''_id'', ObjectId ''64b7f0000000000000000001''), (''folder'', Str ''A'')],
      [(''_id'', ObjectId ''64b7f0000000000000000002''), (''folder'', Str ''A'')]]" "''A''"]
  by (simp add: get_notes_by_folder_def valid_page_limit_def try_except_def count_documents_folder_def
      folder_is_def find_folder_def skip_limit_def max_int64_def ceil_div_def serialize_docs_def
      serialize_doc_def str_int_def digit_char_def AList.delete_eq)

subsection \<open>The window of a page\<close>



subsection \<open>Pages beyond the last\<close>

text \<open>
  Claim C10, as stated: for every page at least 1 that lies beyond the number
  of pages, the listing of all notes still answers, with no error. The page
  has no upper bound, and the driver cannot send a skip above \<open>2 ^ 63 - 1\<close>:
  on the empty collection, page \<open>2 ^ 63 + 1\<close> with limit 1 lies beyond the
  number of pages, 0, and is answered with status 500.
\<close>

theorem list_notes_huge_page_counterexample:
  "(1::int) \<le> 9223372036854775809 \<and>
   \<lceil>real_of_int (int (length ([]::collection))) / real_of_int 1\<rceil> < (9223372036854775809::int) \<and>
   response_status (get_notes [] 9223372036854775809 1) = 500"
  by (simp add: get_notes_def valid_page_limit_def skip_limit_def max_int64_def
      count_documents_def try_except_def response_status_def)

text \<open>
  Claim C10, amended: for every page at least 1 that lies beyond the number of
  pages (any page, when the collection is empty) and whose
  skip = (page - 1) * limit is at most \<open>2 ^ 63 - 1\<close>, the listing of all notes
  answers, with no error: the results are empty, the count is the number of
  documents, and there is no next link.
\<close>

theorem list_notes_past_last_page:
  assumes "1 \<le> page" and "1 \<le> limit" and "limit \<le> 100"
    and "\<lceil>real_of_int (int (length coll)) / real_of_int limit\<rceil> < page"
    and "(page - 1) * limit \<le> max_int64"
  shows "\<exists>r. get_notes coll page limit = Inr r \<and>
            results r = [] \<and> count r = int (length coll) \<and> next_url r = None"
proof -
  have v: "valid_page_limit page limit"
    using assms by (simp add: valid_page_limit_def)
  have pos: "0 < limit"
    using assms by simp
  have past: "ceil_div (int (length coll)) limit < page"
    using assms(4) by (simp only: ceil_div_ceiling)
  have "int (length coll) \<le> (page - 1) * limit"
    by (rule skip_beyond [OF pos past])
  then have "drop (nat ((page - 1) * limit)) coll = []"
    by simp
  then show ?thesis
    using past
    by (simp add: get_notes_valid [OF v assms(5)] serialize_docs_def count_documents_def)
qed

theorem list_notes_past_last_page_witness:
  "(1::int) \<le> 3 \<and> (1::int) \<le> 2 \<and> (2::int) \<le> 100 \<and>
   \<lceil>real_of_int (int (length [[(''_id'', ObjectId ''64b7f0000000000000000001'')]])) / real_of_int 2\<rceil> < (3::int) \<and>
   ((3::int) - 1) * 2 \<le> max_int64 \<and>
   get_notes [[(''_id'', ObjectId ''64b7f0000000000000000001'')]] 3 2
   = Inr \<lparr>results = [], count = 1, next_url = None,
          prev_url = Some ''/notes/?page=2&limit=2''\<rparr>"
  using list_notes_past_last_page [of 3 2 "[[(''_id'', ObjectId ''64b7f0000000000000000001'')]]"]
  by (simp add: get_notes_def valid_page_limit_def try_except_def count_documents_def
      skip_limit_def max_int64_def ceil_div_def serialize_docs_def serialize_doc_def
      str_int_def digit_char_def AList.delete_eq)

subsection \<open>The folder parameter of the search\<close>

text \<open>
  Claim C9. In the search of notes, a folder parameter that is the empty
  string is treated as an absent one: the two requests are answered alike on
  every collection and for every query, whatever the engine makes of the
  pattern, so no search can be restricted to the notes whose folder is the
  empty string.
\<close>

theorem search_empty_folder_is_absent:
  "search_notes ext coll q (Some []) = search_notes ext coll q None"
  by (cases "regex ext q") (simp_all add: search_notes_def)

subsection \<open>Not-found conditions\<close>

text \<open>
  The handlers raise \<open>HTTPException(status_code=404, ...)\<close> inside their own
  \<open>try\<close> block, whose \<open>except Exception\<close> clause catches it and raises the
  exception with status 500 in its place. The facts below give the status a
  client receives.
\<close>

lemma random_note_nonempty:
  assumes "coll \<noteq> []"
  shows "\<exists>d \<in> set coll. get_random_note rnd coll = Inr \<lparr>data = serialize_doc d\<rparr>"
proof -
  have "rnd mod length coll < length coll"
    using assms by simp
  then have "coll ! (rnd mod length coll) \<in> set coll"
    by (rule nth_mem)
  then show ?thesis
    using assms by (auto simp add: get_random_note_def sample_one_def try_except_def)
qed

lemma folder_missing_status:
  assumes "find_folder coll f = []"
  shows "response_status (get_folder_with_notes coll f) = 500"
  using assms by (simp add: get_folder_with_notes_def try_except_def response_status_def)

lemma folder_page_missing_status:
  assumes "valid_page_limit page limit" and "find_folder coll f = []"
  shows "response_status (get_notes_by_folder coll f page limit) = 500"
  using assms
  by (simp add: get_notes_by_folder_def try_except_def response_status_def
      count_documents_folder_def find_folder_def)

lemma folder_present_status:
  assumes "find_folder coll f \<noteq> []"
  shows "response_status (get_folder_with_notes coll f) = 200"
  using assms by (simp add: get_folder_with_notes_def try_except_def response_status_def Let_def)

lemma folder_page_present_status:
  assumes "valid_page_limit page limit" and "find_folder coll f \<noteq> []"
    and "(page - 1) * limit \<le> max_int64"
  shows "response_status (get_notes_by_folder coll f page limit) = 200"
  using assms
  by (simp add: get_notes_by_folder_def skip_limit_def try_except_def response_status_def Let_def
      count_documents_folder_def find_folder_def)

text \<open>
  Claim C1. On an empty collection the random-note request is to fail with
  status 404. The handler's answer there has status 500, whatever the store's
  random choice.
\<close>

theorem random_note_empty_collection:
  "response_status (get_random_note rnd []) = 500"
  by (simp add: get_random_note_def sample_one_def try_except_def response_status_def)

text \<open>
  Claim C2. A request for a folder that no note has is to fail with status
  404, in the folder view and in the paginated folder listing. On a collection
  whose only note is in folder A, both requests for folder B are answered
  with status 500.
\<close>

theorem folder_without_notes_status:
  "response_status (get_folder_with_notes
      [[(''_id'', ObjectId ''64b7f0000000000000000001''), (''folder'', Str ''A'')]] ''B'') = 500 \<and>
   response_status (get_notes_by_folder
      [[(''_id'', ObjectId ''64b7f0000000000000000001''), (''folder'', Str ''A'')]] ''B'' 1 50) = 500"
  by (simp add: folder_missing_status folder_page_missing_status valid_page_limit_def
      find_folder_def folder_is_def)

subsection \<open>Folder groups\<close>

lemma sum_indicator_absent:
  assumes "k \<notin> set ks"
  shows "(\<Sum>j\<leftarrow>ks. if j = k then (1::int) else 0) = 0"
  using assms by (induction ks) auto

lemma sum_indicator_distinct:
  assumes "distinct ks" and "k \<in> set ks"
  shows "(\<Sum>j\<leftarrow>ks. if j = k then (1::int) else 0) = 1"
  using assms by (induction ks) (auto simp add: sum_indicator_absent)

lemma group_sizes_sum:
  assumes "distinct ks" and "key ` set xs \<subseteq> set ks"
  shows "(\<Sum>k\<leftarrow>ks. int (length (filter (\<lambda>d. key d = k) xs))) = int (length xs)"
  using assms(2)
proof (induction xs)
  case Nil
  then show ?case by simp
next
  case (Cons x xs)
  have in_ks: "key x \<in> set ks"
    using Cons.prems by simp
  have "(\<Sum>k\<leftarrow>ks. int (length (filter (\<lambda>d. key d = k) (x # xs))))
      = (\<Sum>k\<leftarrow>ks. (if k = key x then 1 else 0) + int (length (filter (\<lambda>d. key d = k) xs)))"
    by (rule arg_cong [where f = sum_list]) (auto intro: map_cong)
  also have "\<dots> = (\<Sum>k\<leftarrow>ks. if k = key x then 1 else 0)
      + (\<Sum>k\<leftarrow>ks. int (length (filter (\<lambda>d. key d = k) xs)))"
    by (simp add: sum_list_addf)
  also have "\<dots> = 1 + int (length xs)"
    using Cons sum_indicator_distinct [OF assms(1) in_ks] by simp
  finally show ?case by simp
qed

lemma group_count_sum: "(\<Sum>g\<leftarrow>group_count coll. snd g) = int (length coll)"
proof -
  have "(\<Sum>g\<leftarrow>group_count coll. snd g)
      = (\<Sum>k\<leftarrow>group_folders coll. int (length (filter (\<lambda>d. folder_key d = k) coll)))"
    by (simp add: group_count_def comp_def) 
  also have "\<dots> = int (length coll)"
    by (rule group_sizes_sum) (simp_all add: group_folders_def)
  finally show ?thesis .
qed

lemma sum_list_insort_key:
  fixes f :: "'a \<Rightarrow> int"
  shows "sum_list (map f (insort_key k x xs)) = f x + sum_list (map f xs)"
  by (induction xs) simp_all

lemma sum_list_sort_key:
  fixes f :: "'a \<Rightarrow> int"
  shows "sum_list (map f (sort_key k xs)) = sum_list (map f xs)"
  by (induction xs) (simp_all add: sum_list_insort_key)

lemma sort_count_desc_sum: "(\<Sum>g\<leftarrow>sort_count_desc gs. snd g) = (\<Sum>g\<leftarrow>gs. snd g)"
  by (simp add: sort_count_desc_def sum_list_sort_key)

lemma get_folders_eq:
  "get_folders coll = Inr \<lparr>data = map (\<lambda>g. \<lparr>name = fst g, folder_entry.note_count = snd g\<rparr>)
                          (sort_count_desc (group_count coll))\<rparr>"
  by (simp add: get_folders_def try_except_def)

text \<open>
  Claim C6. For every collection, the note counts of the groups that the
  folder listing returns add up to the number of notes of the collection:
  every note is counted in exactly one group.
\<close>

theorem folder_counts_sum:
  "\<exists>r. get_folders coll = Inr r \<and>
        (\<Sum>e\<leftarrow>data r. folder_entry.note_count e) = int (length coll)"
proof -
  have "(\<Sum>e\<leftarrow>map (\<lambda>g. \<lparr>name = fst g, folder_entry.note_count = snd g\<rparr>) (sort_count_desc (group_count coll)).
          folder_entry.note_count e) = (\<Sum>g\<leftarrow>sort_count_desc (group_count coll). snd g)"
    by (simp add: comp_def)
  also have "\<dots> = int (length coll)"
    by (simp add: sort_count_desc_sum group_count_sum)
  finally show ?thesis
    by (simp add: get_folders_eq)
qed

lemma sort_count_desc_sorted: "sorted_wrt (\<ge>) (map snd (sort_count_desc gs))"
proof -
  have "sorted (map (\<lambda>g. - snd g) (sort_count_desc gs))"
    by (simp add: sort_count_desc_def)
  then have "sorted_wrt (\<lambda>a b. - snd a \<le> - snd b) (sort_count_desc gs)"
    by (simp add: sorted_map)
  then show ?thesis
    by (simp add: sorted_wrt_map)
qed

lemma search_folders_Inr:
  assumes "search_folders ext coll q = Inr r"
  shows "\<exists>m. data r = map (\<lambda>s. \<lparr>name = Str s\<rparr>) (sort (match_folders m (group_folders coll)))"
proof (cases "regex ext q")
  case (Inl msg)
  then show ?thesis
    using assms by (simp add: search_folders_def try_except_def split: if_splits)
next
  case (Inr m)
  then have "data r = map (\<lambda>s. \<lparr>name = Str s\<rparr>) (sort (match_folders m (group_folders coll)))"
    using assms by (auto simp add: search_folders_def try_except_def split: if_splits)
  then show ?thesis by blast
qed

lemma search_folders_answers:
  assumes "1 \<le> length q" and "regex ext q = Inr m"
  shows "\<exists>r. search_folders ext coll q = Inr r"
proof -
  have "q \<noteq> []"
    using assms(1) by auto
  then show ?thesis
    using assms(2) by (simp add: search_folders_def try_except_def)
qed

text \<open>
  Claim C7, as stated: the folder search is sorted in ascending alphabetical
  order of folder name. The store orders texts by character code, in which
  every upper-case letter stands before every lower-case one: with the
  folders \<open>apple\<close> and \<open>Zebra\<close>, the search for \<open>e\<close> returns \<open>Zebra\<close> before
  \<open>apple\<close>.
\<close>

theorem folder_search_order_counterexample:
  "search_folders (\<lambda>p. Inl [])
     [[(''_id'', ObjectId ''64b7f0000000000000000001''), (''folder'', Str ''apple'')],
      [(''_id'', ObjectId ''64b7f0000000000000000002''), (''folder'', Str ''Zebra'')]] ''e''
     = Inr \<lparr>data = [\<lparr>name = Str ''Zebra''\<rparr>, \<lparr>name = Str ''apple''\<rparr>]\<rparr> \<and>
   \<not> alphabetical ''Zebra'' ''apple''"
  by code_simp

text \<open>
  Claim C7, amended: the folder listing is sorted by descending note count;
  every response of the folder search is sorted by ascending folder name in
  the store's order of texts, character by character by character code (so an
  upper-case letter comes before every lower-case one), whatever the query.
  The folder search answers whenever the query is not empty and the engine
  accepts the pattern.
\<close>

theorem folder_lists_sorted:
  "(\<exists>r. get_folders coll = Inr r \<and>
        sorted_wrt (\<ge>) (map folder_entry.note_count (data r))) \<and>
   (\<forall>r. search_folders ext coll q = Inr r \<longrightarrow>
        (\<exists>ss. map name (data r) = map Str ss \<and> sorted ss)) \<and>
   (\<forall>m. 1 \<le> length q \<and> regex ext q = Inr m \<longrightarrow>
        (\<exists>r. search_folders ext coll q = Inr r))"
proof (intro conjI allI impI)
  show "\<exists>r. get_folders coll = Inr r \<and> sorted_wrt (\<ge>) (map folder_entry.note_count (data r))"
    using sort_count_desc_sorted [of "group_count coll"]
    by (simp add: get_folders_eq comp_def)
next
  fix r
  assume "search_folders ext coll q = Inr r"
  then obtain m
    where "data r = map (\<lambda>s. \<lparr>name = Str s\<rparr>) (sort (match_folders m (group_folders coll)))"
    using search_folders_Inr by blast
  then have "map name (data r) = map Str (sort (match_folders m (group_folders coll)))"
    by (simp add: comp_def)
  then show "\<exists>ss. map name (data r) = map Str ss \<and> sorted ss"
    using sorted_sort by blast
next
  fix m
  assume "1 \<le> length q \<and> regex ext q = Inr m"
  then show "\<exists>r. search_folders ext coll q = Inr r"
    using search_folders_answers by blast
qed

theorem folder_lists_sorted_witness:
  "search_folders (\<lambda>p. Inl [])
     [[(''_id'', ObjectId ''64b7f0000000000000000001''), (''folder'', Str ''beta'')],
      [(''_id'', ObjectId ''64b7f0000000000000000002''), (''folder'', Str ''Alpha'')],
      [(''_id'', ObjectId ''64b7f0000000000000000003''), (''folder'', Str ''alpha'')],
      [(''_id'', ObjectId ''64b7f0000000000000000004''), (''folder'', Str ''Zeta'')]] ''a''
     = Inr \<lparr>data = [\<lparr>name = Str ''Alpha''\<rparr>, \<lparr>name = Str ''Zeta''\<rparr>,
                      \<lparr>name = Str ''alpha''\<rparr>, \<lparr>name = Str ''beta''\<rparr>]\<rparr> \<and>
   sorted [''Alpha'', ''Zeta'', ''alpha'', ''beta'']"
proof -
  let ?coll = "[[(''_id'', ObjectId ''64b7f0000000000000000001''), (''folder'', Str ''beta'')],
      [(''_id'', ObjectId ''64b7f0000000000000000002''), (''folder'', Str ''Alpha'')],
      [(''_id'', ObjectId ''64b7f0000000000000000003''), (''folder'', Str ''alpha'')],
      [(''_id'', ObjectId ''64b7f0000000000000000004''), (''folder'', Str ''Zeta'')]]"
  let ?r = "\<lparr>data = [\<lparr>name = Str ''Alpha''\<rparr>, \<lparr>name = Str ''Zeta''\<rparr>,
                     \<lparr>name = Str ''alpha''\<rparr>, \<lparr>name = Str ''beta''\<rparr>]\<rparr>"
  have run: "search_folders (\<lambda>p. Inl []) ?coll ''a'' = Inr ?r"
    by code_simp
  have "\<exists>ss. map name (data ?r) = map Str ss \<and> sorted ss"
    using folder_lists_sorted [of ?coll "\<lambda>p. Inl []" "''a''"] run by blast
  then obtain ss where ss: "map name (data ?r) = map Str ss" and sorted: "sorted ss"
    by blast
  have "map Str ss = map Str [''Alpha'', ''Zeta'', ''alpha'', ''beta'']"
    using ss by simp
  then have "ss = [''Alpha'', ''Zeta'', ''alpha'', ''beta'']"
    by (auto simp add: map_eq_Cons_conv)
  with sorted run show ?thesis
    by simp
qed

subsection \<open>Identifiers of the notes in responses\<close>

lemma serialize_doc_exposes_id:
  assumes "map_of d ''_id'' \<noteq> None"
  shows "exposes_id d (serialize_doc d)"
proof -
  obtain v where v: "map_of d ''_id'' = Some v"
    using assms by blast
  then have ne: "d \<noteq> []"
    by auto
  have eq: "serialize_doc d = AList.delete ''_id'' (AList.update ''id'' (Str (py_str v)) d)"
    using v ne by (simp add: serialize_doc_def)
  have "map_of (serialize_doc d) ''_id'' = None"
    unfolding eq by (simp add: AList.delete_conv)
  moreover have "map_of (serialize_doc d) ''id'' = Some (Str (py_str v))"
    unfolding eq by (simp add: AList.delete_conv AList.update_conv')
  ultimately show ?thesis
    using v by (simp add: exposes_id_def)
qed

lemma serialize_docs_expose_id:
  assumes "\<forall>d\<in>set coll. map_of d ''_id'' \<noteq> None" and "set xs \<subseteq> set coll"
    and "n \<in> set (serialize_docs xs)"
  shows "\<exists>d\<in>set coll. exposes_id d n"
proof -
  obtain d where d: "d \<in> set xs" "n = serialize_doc d"
    using assms(3) by (auto simp add: serialize_docs_def)
  then have "d \<in> set coll"
    using assms(2) by blast
  then show ?thesis
    using d(2) assms(1) serialize_doc_exposes_id by blast
qed

lemma get_notes_results:
  assumes "get_notes coll page limit = Inr r"
  shows "\<exists>xs. set xs \<subseteq> set coll \<and> results r = serialize_docs xs"
proof -
  have v: "valid_page_limit page limit" and fits: "(page - 1) * limit \<le> max_int64"
    using get_notes_Inr [OF assms] by simp_all
  have "results r = serialize_docs (take (nat limit) (drop (nat ((page - 1) * limit)) coll))"
    using assms by (auto simp add: get_notes_valid [OF v fits])
  moreover have "set (take (nat limit) (drop (nat ((page - 1) * limit)) coll)) \<subseteq> set coll"
    by (meson set_take_subset set_drop_subset subset_trans)
  ultimately show ?thesis by blast
qed

lemma get_notes_by_folder_results:
  assumes "get_notes_by_folder coll f page limit = Inr r"
  shows "\<exists>xs. set xs \<subseteq> set coll \<and> results r = serialize_docs xs"
proof -
  have v: "valid_page_limit page limit" and some: "count_documents_folder coll f \<noteq> 0"
    and fits: "(page - 1) * limit \<le> max_int64"
    using get_notes_by_folder_Inr [OF assms] by simp_all
  have "results r = serialize_docs
      (take (nat limit) (drop (nat ((page - 1) * limit)) (find_folder coll f)))"
    using assms by (auto simp add: get_notes_by_folder_valid [OF v some fits])
  moreover have "set (take (nat limit) (drop (nat ((page - 1) * limit)) (find_folder coll f)))
      \<subseteq> set (find_folder coll f)"
    by (meson set_take_subset set_drop_subset subset_trans)
  moreover have "set (find_folder coll f) \<subseteq> set coll"
    by (simp add: find_folder_def)
  ultimately show ?thesis by blast
qed

lemma get_folder_with_notes_notes:
  assumes "get_folder_with_notes coll f = Inr r"
  shows "notes (data r) = serialize_docs (find_folder coll f)"
  using assms
  by (cases "find_folder coll f = []")
     (auto simp add: get_folder_with_notes_def try_except_def Let_def)

lemma search_notes_data:
  assumes "search_notes ext coll q fo = Inr r"
  shows "\<exists>P. data r = serialize_docs (filter P coll)"
proof (cases "regex ext q")
  case (Inl msg)
  then show ?thesis
    using assms by (simp add: search_notes_def try_except_def split: if_splits)
next
  case (Inr m)
  then show ?thesis
    using assms by (auto simp add: search_notes_def try_except_def Let_def split: if_splits)
qed

lemma get_random_note_data:
  assumes "get_random_note rnd coll = Inr r"
  shows "\<exists>d\<in>set coll. data r = serialize_doc d"
proof (cases "coll = []")
  case True
  then show ?thesis
    using assms by (simp add: get_random_note_def sample_one_def try_except_def)
next
  case False
  then show ?thesis
    using assms random_note_nonempty [OF False, of rnd] by auto
qed

text \<open>
  Claim C8. The store gives every document it holds an \<open>_id\<close>. On such a
  collection, every note of every successful response (both paginated
  listings, the search for every query and whatever the engine makes of the
  pattern, the random note, the folder view) is the serialised form of a
  stored document: it has an \<open>id\<close> field holding the text \<open>str\<close> of that
  document's \<open>_id\<close>, and no \<open>_id\<close> field.
\<close>

theorem responses_expose_id:
  assumes "\<forall>d\<in>set coll. map_of d ''_id'' \<noteq> None"
  shows "(\<forall>r. get_notes coll page limit = Inr r \<longrightarrow>
            (\<forall>n\<in>set (results r). \<exists>d\<in>set coll. exposes_id d n)) \<and>
         (\<forall>r. search_notes ext coll q fo = Inr r \<longrightarrow>
            (\<forall>n\<in>set (data r). \<exists>d\<in>set coll. exposes_id d n)) \<and>
         (\<forall>r. get_random_note rnd coll = Inr r \<longrightarrow>
            (\<exists>d\<in>set coll. exposes_id d (data r))) \<and>
         (\<forall>r. get_folder_with_notes coll f = Inr r \<longrightarrow>
            (\<forall>n\<in>set (notes (data r)). \<exists>d\<in>set coll. exposes_id d n)) \<and>
         (\<forall>r. get_notes_by_folder coll f page limit = Inr r \<longrightarrow>
            (\<forall>n\<in>set (results r). \<exists>d\<in>set coll. exposes_id d n))"
proof (intro conjI allI impI ballI)
  fix r n
  assume "get_notes coll page limit = Inr r" and n: "n \<in> set (results r)"
  then obtain xs where "set xs \<subseteq> set coll" and "results r = serialize_docs xs"
    using get_notes_results by blast
  then show "\<exists>d\<in>set coll. exposes_id d n"
    using serialize_docs_expose_id [OF assms, of xs n] n by simp
next
  fix r n
  assume "search_notes ext coll q fo = Inr r" and n: "n \<in> set (data r)"
  then obtain P where "data r = serialize_docs (filter P coll)"
    using search_notes_data by blast
  then show "\<exists>d\<in>set coll. exposes_id d n"
    using serialize_docs_expose_id [OF assms, of "filter P coll" n] n by simp
next
  fix r
  assume "get_random_note rnd coll = Inr r"
  then show "\<exists>d\<in>set coll. exposes_id d (data r)"
    using get_random_note_data assms serialize_doc_exposes_id by metis
next
  fix r n
  assume "get_folder_with_notes coll f = Inr r" and "n \<in> set (notes (data r))"
  then show "\<exists>d\<in>set coll. exposes_id d n"
    using serialize_docs_expose_id [OF assms, of "find_folder coll f" n]
    by (simp add: get_folder_with_notes_notes find_folder_def)
next
  fix r n
  assume "get_notes_by_folder coll f page limit = Inr r" and n: "n \<in> set (results r)"
  then obtain xs where "set xs \<subseteq> set coll" and "results r = serialize_docs xs"
    using get_notes_by_folder_results by blast
  then show "\<exists>d\<in>set coll. exposes_id d n"
    using serialize_docs_expose_id [OF assms, of xs n] n by simp
qed

theorem responses_expose_id_witness:
  "map_of [(''_id'', ObjectId ''64b7f0000000000000000001''), (''title'', Str ''what?'')] ''_id'' \<noteq> None \<and>
   search_notes (\<lambda>p. Inr (\<lambda>s. True))
       [[(''_id'', ObjectId ''64b7f0000000000000000001''), (''title'', Str ''what?'')]] ''what?'' None
     = Inr \<lparr>data = [[(''title'', Str ''what?''), (''id'', Str ''64b7f0000000000000000001'')]]\<rparr> \<and>
   exposes_id [(''_id'', ObjectId ''64b7f0000000000000000001''), (''title'', Str ''what?'')]
              [(''title'', Str ''what?''), (''id'', Str ''64b7f0000000000000000001'')]"
proof -
  let ?d = "[(''_id'', ObjectId ''64b7f0000000000000000001''), (''title'', Str ''what?'')]"
  let ?n = "[(''title'', Str ''what?''), (''id'', Str ''64b7f0000000000000000001'')]"
  have has_id: "\<forall>d\<in>set [?d]. map_of d ''_id'' \<noteq> None"
    by simp
  have run: "search_notes (\<lambda>p. Inr (\<lambda>s. True)) [?d] ''what?'' None = Inr \<lparr>data = [?n]\<rparr>"
    by code_simp
  have "\<forall>n\<in>set (data \<lparr>data = [?n]\<rparr>). \<exists>d\<in>set [?d]. exposes_id d n"
    using responses_expose_id [OF has_id, of _ _ "\<lambda>p. Inr (\<lambda>s. True)" "''what?''" None] run
    by blast
  then have "exposes_id ?d ?n"
    by simp
  with run show ?thesis
    by simp
qed

subsection \<open>The search pattern\<close>









end
